theory Spec2Isabelle
  imports Complex_Main "HOL-Library.Word"
begin

section \<open>Allie Chess: the clock (lib/clock.cpp) and the tree's root (lib/tree.h)\<close>

text \<open>
  Conventions of the embedding.
  \<^item> \<open>qint64\<close> and \<open>int\<close> quantities are mathematical integers (\<open>int\<close>). Overflow of
    signed arithmetic is undefined in C++ and is not given a meaning here; the conversions
    whose wrap-around the language defines (\<open>quint64(x)\<close>, \<open>int(x)\<close> of a \<open>qint64\<close>)
    are written out with \<open>mod\<close>.
  \<^item> \<open>/\<close> on integers is C++ division, which truncates towards zero (\<open>cdiv\<close>); dividing
    by zero is an error value.
  \<^item> A \<open>float\<close> is a binary32 value, given as the rational it denotes; every
    operation rounds its exact result to 24 bits. Infinities, NaN and the exponent range
    are left out, and the \<open>int\<close> a float is converted to is not bounded.
  \<^item> What the code reads from its surroundings (the \<open>MoveOverhead\<close> option, the elapsed
    timer, the current game) is an argument of the function that reads it.
\<close>

subsection \<open>Integer helpers\<close>

definition cdiv :: "int \<Rightarrow> int \<Rightarrow> int" where
  \<comment> \<open>C++ \<open>a / b\<close> on integers, for \<open>b \<noteq> 0\<close>\<close>
  "cdiv a b = sgn a * sgn b * (\<bar>a\<bar> div \<bar>b\<bar>)"

definition quint64 :: "int \<Rightarrow> int" where
  \<comment> \<open>the cast \<open>quint64(x)\<close> of a \<open>qint64\<close>\<close>
  "quint64 x = x mod 2 ^ 64"

definition toInt32 :: "int \<Rightarrow> int" where
  \<comment> \<open>the cast \<open>int(x)\<close> of a \<open>qint64\<close>\<close>
  "toInt32 x = (x + 2 ^ 31) mod 2 ^ 32 - 2 ^ 31"

subsection \<open>Binary32 floats\<close>

text \<open>
  A \<open>float\<close> is given by its value, a rational. Every float operation of the source is
  the exact operation followed by \<open>toFloat\<close>, the rounding to the nearest value with a
  significand of 24 bits, ties going to the even significand. \<open>ilog2 x\<close> is the exponent
  of \<open>x > 0\<close>, the \<open>e\<close> with \<open>2 ^ e \<le> x < 2 ^ (e + 1)\<close>.
\<close>

definition pow2 :: "int \<Rightarrow> rat" where
  "pow2 e = (if 0 \<le> e then 2 ^ nat e else 1 / 2 ^ nat (- e))"

function ilog2up :: "rat \<Rightarrow> int" where
  \<comment> \<open>the exponent of \<open>x \<ge> 1\<close>\<close>
  "ilog2up x = (if x < 2 then 0 else ilog2up (x / 2) + 1)"
  by pat_completeness auto
termination
proof (relation "measure (\<lambda>x. nat \<lfloor>x\<rfloor>)")
  show "wf (measure (\<lambda>x::rat. nat \<lfloor>x\<rfloor>))" by simp
next
  fix x :: rat
  assume "\<not> x < 2"
  then have x: "2 \<le> x" by simp
  have "of_int \<lfloor>x / 2\<rfloor> \<le> x / 2" by (rule of_int_floor_le)
  also have "\<dots> \<le> x - 1" using x by simp
  also have "\<dots> < of_int \<lfloor>x\<rfloor>" by linarith
  finally have "\<lfloor>x / 2\<rfloor> < \<lfloor>x\<rfloor>" by simp
  moreover have "0 < \<lfloor>x\<rfloor>" using x by linarith
  ultimately show "(x / 2, x) \<in> measure (\<lambda>x. nat \<lfloor>x\<rfloor>)" by simp
qed

function ilog2down :: "rat \<Rightarrow> int" where
  \<comment> \<open>the exponent of \<open>0 < x < 1\<close>\<close>
  "ilog2down x = (if x \<le> 0 \<or> 1 \<le> x then 0 else ilog2down (2 * x) - 1)"
  by pat_completeness auto
termination
proof (relation "measure (\<lambda>x. nat \<lceil>1 / x\<rceil>)")
  show "wf (measure (\<lambda>x::rat. nat \<lceil>1 / x\<rceil>))" by simp
next
  fix x :: rat
  assume "\<not> (x \<le> 0 \<or> 1 \<le> x)"
  then have x: "0 < x" "x < 1" by simp_all
  then have y: "1 < 1 / x" by simp
  then have n: "2 \<le> \<lceil>1 / x\<rceil>" by linarith
  have "1 / (2 * x) = (1 / x) / 2" by simp
  also have "\<dots> \<le> of_int \<lceil>1 / x\<rceil> / 2" by (simp add: divide_right_mono)
  also have "\<dots> \<le> of_int (\<lceil>1 / x\<rceil> - 1)" using n by simp
  finally have "\<lceil>1 / (2 * x)\<rceil> \<le> \<lceil>1 / x\<rceil> - 1" by (simp only: ceiling_le_iff)
  with n have "nat \<lceil>1 / (2 * x)\<rceil> < nat \<lceil>1 / x\<rceil>" by linarith
  then show "(2 * x, x) \<in> measure (\<lambda>x. nat \<lceil>1 / x\<rceil>)" by simp
qed

declare ilog2up.simps [simp del]

declare ilog2down.simps [simp del]

definition ilog2 :: "rat \<Rightarrow> int" where
  "ilog2 x = (if 1 \<le> x then ilog2up x else ilog2down x)"

definition roundToEven :: "rat \<Rightarrow> int" where
  \<comment> \<open>the nearest integer, the even one of the two when they are equally near\<close>
  "roundToEven q =
     (let f = \<lfloor>q\<rfloor>; r = q - of_int f
      in if r < 1 / 2 then f else if 1 / 2 < r then f + 1 else if even f then f else f + 1)"

definition toFloat :: "rat \<Rightarrow> rat" where
  "toFloat x =
     (if x = 0 then 0
      else let s = pow2 (ilog2 \<bar>x\<bar> - 23) in of_int (roundToEven (x / s)) * s)"

definition fadd :: "rat \<Rightarrow> rat \<Rightarrow> rat" where
  \<comment> \<open>\<open>a + b\<close> on floats\<close>
  "fadd a b = toFloat (a + b)"

definition fsub :: "rat \<Rightarrow> rat \<Rightarrow> rat" where
  \<comment> \<open>\<open>a - b\<close> on floats\<close>
  "fsub a b = toFloat (a - b)"

definition fmul :: "rat \<Rightarrow> rat \<Rightarrow> rat" where
  \<comment> \<open>\<open>a * b\<close> on floats\<close>
  "fmul a b = toFloat (a * b)"

definition floatOfInt :: "int \<Rightarrow> rat" where
  \<comment> \<open>the conversion of an integer to \<open>float\<close>, written \<open>float(k)\<close> or made implicitly\<close>
  "floatOfInt k = toFloat (of_int k)"

definition floatToInt :: "rat \<Rightarrow> int" where
  \<comment> \<open>the cast \<open>int(d)\<close> of a float: the fraction is dropped\<close>
  "floatToInt d = (if 0 \<le> d then \<lfloor>d\<rfloor> else \<lceil>d\<rceil>)"

definition qRound :: "rat \<Rightarrow> int" where
  \<comment> \<open>Qt 5, qglobal.h, \<open>qRound(float d)\<close>:
      \<open>d >= 0.0f ? int(d + 0.5f) : int(d - float(int(d-1)) + 0.5f) + int(d-1)\<close>\<close>
  "qRound d =
     (if 0 \<le> d then floatToInt (fadd d (1 / 2))
      else floatToInt (fadd (fsub d (floatOfInt (floatToInt (fsub d 1)))) (1 / 2))
           + floatToInt (fsub d 1))"

definition easingCurve :: "rat \<Rightarrow> rat" where
  \<comment> \<open>the build without \<open>EXPERIMENTAL\<close>\<close>
  "easingCurve x = x"

definition roundHalfUp :: "rat \<Rightarrow> int" where
  \<comment> \<open>rounding of an exact number, as in the specification's formulas\<close>
  "roundHalfUp x = \<lfloor>x + 1 / 2\<rfloor>"

subsection \<open>Clock state\<close>

datatype Army = White | Black

datatype Trend = Worse | Same | Better

text \<open>
  \<open>SearchInfo\<close> is declared in search.h. \<open>trendDegree\<close> is a \<open>float\<close>, as every
  floating value of clock.cpp is.
\<close>

record SearchInfo =
  depth :: int
  trend :: Trend
  trendDegree :: rat

text \<open>
  \<open>m_timeout\<close> is the single-shot \<open>QTimer\<close>: \<open>None\<close> when stopped, \<open>Some ms\<close> when
  started with that interval. \<open>m_timer\<close>, the elapsed timer, is read through the
  argument \<open>elapsed\<close> (milliseconds) of the functions below.
\<close>

record Clock =
  m_isActive :: bool
  m_whiteTime :: int
  m_whiteIncrement :: int
  m_blackTime :: int
  m_blackIncrement :: int
  m_moveTime :: int
  m_infinite :: bool
  m_deadline :: int
  m_trendFactor :: int
  m_materialScore :: int
  m_halfMoveNumber :: int
  m_info :: SearchInfo
  m_onTheClock :: Army
  m_timeout :: "int option"

datatype clock_error = DivisionByZero

definition boolToInt :: "bool \<Rightarrow> int" where
  \<comment> \<open>the conversion of a \<open>bool\<close> to an integer type\<close>
  "boolToInt b = (if b then 1 else 0)"

definition Clock_new :: "SearchInfo \<Rightarrow> Army \<Rightarrow> Clock" where
  \<comment> \<open>\<open>Clock::Clock\<close>. The initialiser list names neither \<open>m_info\<close> nor \<open>m_onTheClock\<close>:
      \<open>info0\<close> is the default-constructed \<open>SearchInfo()\<close>, \<open>army0\<close> whatever
      \<open>m_onTheClock\<close> holds.\<close>
  "Clock_new info0 army0 =
     \<lparr> m_isActive = False,
       m_whiteTime = - 1,
       m_whiteIncrement = - 1,
       m_blackTime = - 1,
       m_blackIncrement = - 1,
       m_moveTime = boolToInt False,
       m_infinite = False,
       m_deadline = 0,
       m_trendFactor = 0,
       m_materialScore = 0,
       m_halfMoveNumber = 0,
       m_info = info0,
       m_onTheClock = army0,
       m_timeout = None \<rparr>"

definition time :: "Clock \<Rightarrow> Army \<Rightarrow> int" where
  "time c army = (if army = White then m_whiteTime c else m_blackTime c)"

definition setTime :: "Army \<Rightarrow> int \<Rightarrow> Clock \<Rightarrow> Clock" where
  "setTime army t c = (if army = White then c\<lparr>m_whiteTime := t\<rparr> else c\<lparr>m_blackTime := t\<rparr>)"

definition increment :: "Clock \<Rightarrow> Army \<Rightarrow> int" where
  "increment c army = (if army = White then m_whiteIncrement c else m_blackIncrement c)"

definition setIncrement :: "Army \<Rightarrow> int \<Rightarrow> Clock \<Rightarrow> Clock" where
  "setIncrement army inc c =
     (if army = White then c\<lparr>m_whiteIncrement := inc\<rparr> else c\<lparr>m_blackIncrement := inc\<rparr>)"

definition setInfinite :: "bool \<Rightarrow> Clock \<Rightarrow> Clock" where
  "setInfinite flag c = c\<lparr>m_infinite := flag\<rparr>"

definition setMoveTime :: "int \<Rightarrow> Clock \<Rightarrow> Clock" where
  "setMoveTime t c = c\<lparr>m_moveTime := t\<rparr>"

definition QElapsedTimer_hasExpired :: "int \<Rightarrow> int \<Rightarrow> bool" where
  \<comment> \<open>Qt, qelapsedtimer.cpp: \<open>return quint64(elapsed()) > quint64(timeout);\<close>\<close>
  "QElapsedTimer_hasExpired elapsed timeout = (quint64 timeout < quint64 elapsed)"

definition hasExpired :: "int \<Rightarrow> Clock \<Rightarrow> bool" where
  "hasExpired elapsed c = QElapsedTimer_hasExpired elapsed (m_deadline c)"

definition timeToDeadline :: "int \<Rightarrow> Clock \<Rightarrow> int" where
  "timeToDeadline elapsed c = (if m_infinite c then - 1 else m_deadline c - elapsed)"

definition trendFactor :: "Clock \<Rightarrow> int" where
  "trendFactor c = m_trendFactor c"

definition lessThanMoveOverhead :: "int \<Rightarrow> int \<Rightarrow> Clock \<Rightarrow> bool" where
  "lessThanMoveOverhead overhead elapsed c = (timeToDeadline elapsed c < overhead)"

definition pastMoveOverhead :: "int \<Rightarrow> int \<Rightarrow> bool" where
  "pastMoveOverhead overhead elapsed = (overhead < elapsed)"

definition expectedHalfMovesTillEOG :: "Clock \<Rightarrow> int" where
  \<comment> \<open>\<open>3/8\<close> and \<open>5/4\<close> are divisions of \<open>int\<close> literals, made before the product with
      \<open>float(m_materialScore)\<close>, for which the quotient is converted to \<open>float\<close>\<close>
  "expectedHalfMovesTillEOG c =
     (if m_materialScore c < 20 then m_materialScore c + 10
      else if 20 \<le> m_materialScore c \<and> m_materialScore c \<le> 60
        then qRound (fmul (floatOfInt (cdiv 3 8)) (floatOfInt (m_materialScore c))) + 22
      else qRound (fmul (floatOfInt (cdiv 5 4)) (floatOfInt (m_materialScore c))) - 30)"

definition expectedHalfMovesTillEOG_spec :: "int \<Rightarrow> int" where
  \<comment> \<open>the specification's table, with the rational constants \<open>0.375\<close> and \<open>1.25\<close>\<close>
  "expectedHalfMovesTillEOG_spec m =
     (if m < 20 then m + 10
      else if 20 \<le> m \<and> m \<le> 60 then roundHalfUp ((3 / 8) * of_int m) + 22
      else roundHalfUp ((5 / 4) * of_int m) - 30)"

definition calculateDeadline :: "int \<Rightarrow> int \<Rightarrow> bool \<Rightarrow> Clock \<Rightarrow> clock_error + Clock" where
  \<comment> \<open>\<open>overhead\<close> is the \<open>MoveOverhead\<close> option, \<open>elapsed\<close> the reading of \<open>elapsed()\<close>
      in the last line; \<open>isPartial\<close> is unused, as in the source\<close>
  "calculateDeadline overhead elapsed isPartial c =
     (if m_infinite c then Inr (c\<lparr>m_deadline := - 1, m_timeout := None\<rparr>)
      else
        let minimumDepth = 3;
            t = time c (m_onTheClock c);
            inc = increment c (m_onTheClock c);
            maximum = t - overhead
        in if expectedHalfMovesTillEOG c = 0 then Inl DivisionByZero
           else
             let ideal = qRound (easingCurve (floatOfInt (cdiv t (expectedHalfMovesTillEOG c) + inc)));
                 trendFactor = qRound (fmul (floatOfInt (cdiv maximum 4)) (trendDegree (m_info c)));
                 tf = (if trend (m_info c) \<noteq> Better then m_trendFactor c + trendFactor
                       else cdiv (m_trendFactor c) 2);
                 tf = max 0 tf;
                 deadline =
                   (if m_moveTime c \<noteq> - 1 then m_moveTime c - overhead
                    else if t \<noteq> - 1 \<and> minimumDepth \<le> depth (m_info c) then min maximum ideal
                    else if t \<noteq> - 1 then maximum
                    else 5000);
                 d = max 0 deadline
             in Inr (c\<lparr>m_trendFactor := tf, m_deadline := d,
                       m_timeout := Some (max 0 (toInt32 (d - elapsed)))\<rparr>))"

definition startDeadline :: "int \<Rightarrow> int \<Rightarrow> SearchInfo \<Rightarrow> Army \<Rightarrow> Clock \<Rightarrow> clock_error + Clock" where
  \<comment> \<open>\<open>info0\<close> is the default-constructed \<open>SearchInfo()\<close>\<close>
  "startDeadline overhead elapsed info0 army c =
     calculateDeadline overhead elapsed False
       (c\<lparr>m_isActive := True, m_info := info0, m_onTheClock := army, m_timeout := None\<rparr>)"

definition updateDeadline :: "int \<Rightarrow> int \<Rightarrow> SearchInfo \<Rightarrow> bool \<Rightarrow> Clock \<Rightarrow> clock_error + Clock" where
  "updateDeadline overhead elapsed info isPartial c =
     calculateDeadline overhead elapsed isPartial (c\<lparr>m_info := info\<rparr>)"

subsection \<open>Vocabulary of the statements about \<open>calculateDeadline\<close>\<close>

definition deadlineFor :: "int \<Rightarrow> Clock \<Rightarrow> int" where
  \<comment> \<open>the value that \<open>calculateDeadline\<close> stores in \<open>m_deadline\<close> when it reaches its end\<close>
  "deadlineFor overhead c =
     max 0 (if m_moveTime c \<noteq> - 1 then m_moveTime c - overhead
            else if time c (m_onTheClock c) \<noteq> - 1 \<and> 3 \<le> depth (m_info c)
              then min (time c (m_onTheClock c) - overhead)
                       (qRound (easingCurve (floatOfInt
                          (cdiv (time c (m_onTheClock c)) (expectedHalfMovesTillEOG c)
                           + increment c (m_onTheClock c)))))
            else if time c (m_onTheClock c) \<noteq> - 1 then time c (m_onTheClock c) - overhead
            else 5000)"

definition trendFactorFor :: "int \<Rightarrow> Clock \<Rightarrow> int" where
  \<comment> \<open>the value that \<open>calculateDeadline\<close> stores in \<open>m_trendFactor\<close> when it reaches its end\<close>
  "trendFactorFor overhead c =
     max 0 (if trend (m_info c) \<noteq> Better
            then m_trendFactor c
                 + qRound (fmul (floatOfInt (cdiv (time c (m_onTheClock c) - overhead) 4))
                           (trendDegree (m_info c)))
            else cdiv (m_trendFactor c) 2)"

subsection \<open>Tree state and the collaborators of lib/tree.h\<close>

text \<open>
  \<open>Node\<close>, \<open>Node::Position\<close>, \<open>Cache\<close>, \<open>History\<close> and \<open>StandaloneGame\<close> are declared
  in headers outside lib/tree.h. A \<open>Node*\<close> that the code tests is a \<open>node option\<close>
  (\<open>None\<close> is \<open>nullptr\<close>). What \<open>Tree\<close> reads from a node or from the cache is a
  field of the records \<open>Nodes\<close> and \<open>Cache\<close>: the value the call returns when it is
  made. Every call that changes a node or the cache is appended, in order, to a log.
\<close>

type_synonym node = nat

type_synonym npos = nat

type_synonym hash = "64 word"

record 'p StandaloneGame =
  position :: 'p

text \<open>
  What \<open>clearRoot\<close> reads from the nodes: \<open>children n\<close> is \<open>*n->children()\<close>,
  \<open>n_position n\<close> is \<open>n->m_position->position()\<close>, \<open>isTrueTerminal n\<close> is
  \<open>n->isTrueTerminal()\<close>, and \<open>isSamePosition p q\<close> is \<open>p.isSamePosition(q)\<close>.
\<close>

record 'p Nodes =
  children :: "node \<Rightarrow> node list"
  n_position :: "node \<Rightarrow> 'p"
  isTrueTerminal :: "node \<Rightarrow> bool"
  isSamePosition :: "'p \<Rightarrow> 'p \<Rightarrow> bool"

text \<open>
  What \<open>embodiedRoot\<close> reads: \<open>used\<close> is \<open>cache.used()\<close>, \<open>newNode\<close> the pointer that
  \<open>cache.newNode()\<close> returns, \<open>positionHash p\<close> is \<open>p.positionHash()\<close>, and
  \<open>containsNodePosition\<close>, \<open>nodePosition\<close>, \<open>newNodePosition\<close> are the results of the
  calls of these names on the cache.
\<close>

record 'p Cache =
  used :: nat
  newNode :: "node option"
  positionHash :: "'p \<Rightarrow> hash"
  containsNodePosition :: "hash \<Rightarrow> bool"
  nodePosition :: "hash \<Rightarrow> npos"
  newNodePosition :: "hash \<Rightarrow> npos"

text \<open>
  The calls that change a node or the cache: \<open>cache.unlinkNode(n)\<close>, \<open>cache.resetNodes()\<close>,
  \<open>cache.newNode()\<close>, \<open>cache.newNodePosition(h)\<close>, \<open>n->setAsRootNode()\<close>,
  \<open>n->updateTranspositions()\<close>, \<open>n->initialize(parent, game)\<close>, \<open>n->setPosition(p)\<close> and
  \<open>p->initialize(n, position)\<close>.
\<close>

datatype 'p call =
    UnlinkNode node
  | ResetNodes
  | NewNode
  | NewNodePosition hash
  | SetAsRootNode node
  | UpdateTranspositions node
  | NodeInitialize node "node option" "'p StandaloneGame"
  | SetPosition node npos
  | PositionInitialize npos node 'p

datatype tree_error = AssertionFailed | NullDereference

text \<open>The mutex \<open>m_treeMutex\<close> is used by none of the functions below and is left out.\<close>

record Tree =
  m_root :: "node option"
  m_pinned :: "hash list"
  m_resumePreviousPositionIfPossible :: bool

definition Tree_new :: "bool \<Rightarrow> Tree" where
  "Tree_new resumePreviousPositionIfPossible =
     \<lparr> m_root = None, m_pinned = [],
       m_resumePreviousPositionIfPossible = resumePreviousPositionIfPossible \<rparr>"

definition reset :: "Tree \<Rightarrow> Tree" where
  "reset t = t\<lparr>m_root := None\<rparr>"

text \<open>
  The two loops of \<open>clearRoot\<close>. Their state is \<open>m_root\<close> (not null inside the loops),
  the log and \<open>foundResume\<close>. The inner loop ends at its \<open>break\<close>; the outer loop runs
  over the whole copy \<open>children\<close> of the old root's vector.
\<close>

fun grandChildrenLoop ::
  "'p Nodes \<Rightarrow> 'p \<Rightarrow> node list \<Rightarrow> node \<times> 'p call list \<times> bool \<Rightarrow> node \<times> 'p call list \<times> bool"
where
  "grandChildrenLoop ns rp [] s = s"
| "grandChildrenLoop ns rp (grandChild # rest) (rootNode, calls, foundResume) =
     (if isSamePosition ns (n_position ns grandChild) rp \<and> \<not> isTrueTerminal ns grandChild
      then (grandChild,
            calls @ [SetAsRootNode grandChild, UnlinkNode rootNode, UpdateTranspositions grandChild],
            True)
      else grandChildrenLoop ns rp rest (rootNode, calls, foundResume))"

fun childrenLoop ::
  "'p Nodes \<Rightarrow> 'p \<Rightarrow> node list \<Rightarrow> node \<times> 'p call list \<times> bool \<Rightarrow> node \<times> 'p call list \<times> bool"
where
  "childrenLoop ns rp [] s = s"
| "childrenLoop ns rp (child # rest) s =
     childrenLoop ns rp rest (grandChildrenLoop ns rp (children ns child) s)"

fun clearRoot ::
  "'p Nodes \<Rightarrow> 'p StandaloneGame \<Rightarrow> Tree \<times> 'p call list \<Rightarrow> Tree \<times> 'p call list"
where
  \<comment> \<open>\<open>rootGame\<close> is \<open>History::globalInstance()->currentGame()\<close>\<close>
  "clearRoot ns rootGame (t, calls) =
     (let (t1, calls1) =
            (case m_root t of
               None \<Rightarrow> (t, calls)
             | Some r \<Rightarrow>
                 if \<not> m_resumePreviousPositionIfPossible t
                 then (t\<lparr>m_root := None\<rparr>, calls @ [UnlinkNode r])
                 else
                   let (rootNode, calls', foundResume) =
                         childrenLoop ns (position rootGame) (children ns r) (r, calls, False)
                   in if \<not> foundResume
                      then (t\<lparr>m_root := None\<rparr>, calls' @ [UnlinkNode rootNode])
                      else (t\<lparr>m_root := Some rootNode\<rparr>, calls'))
      in (t1, calls1 @ [ResetNodes]))"

fun Tree_destroy ::
  "'p Nodes \<Rightarrow> 'p StandaloneGame \<Rightarrow> Tree \<times> 'p call list \<Rightarrow> Tree \<times> 'p call list"
where
  \<comment> \<open>\<open>Tree::~Tree\<close>\<close>
  "Tree_destroy ns rootGame (t, calls) =
     clearRoot ns rootGame (t\<lparr>m_resumePreviousPositionIfPossible := False\<rparr>, calls)"

fun embodiedRoot ::
  "bool \<Rightarrow> 'p Cache \<Rightarrow> 'p StandaloneGame \<Rightarrow> Tree \<times> 'p call list
     \<Rightarrow> tree_error + (node option \<times> Tree \<times> 'p call list)"
where
  \<comment> \<open>\<open>asserts\<close>: whether \<open>Q_ASSERT\<close> is compiled in. Without it a null \<open>m_root\<close> is
      dereferenced by \<open>m_root->initialize\<close>.\<close>
  "embodiedRoot asserts cache rootGame (t, calls) =
     (case m_root t of
        Some r \<Rightarrow> Inr (m_root t, t, calls)
      | None \<Rightarrow>
          if asserts \<and> used cache \<noteq> 0 then Inl AssertionFailed
          else
            (case newNode cache of
               None \<Rightarrow> Inl (if asserts then AssertionFailed else NullDereference)
             | Some n \<Rightarrow>
                 let t1 = t\<lparr>m_root := Some n\<rparr>;
                     calls1 = calls @ [NewNode];
                     rootPositionHash = positionHash cache (position rootGame);
                     (rootPosition, calls2) =
                       (if containsNodePosition cache rootPositionHash
                        then (nodePosition cache rootPositionHash, calls1)
                        else (newNodePosition cache rootPositionHash,
                              calls1 @ [NewNodePosition rootPositionHash]))
                 in Inr (m_root t1, t1,
                         calls2 @ [NodeInitialize n None rootGame,
                                 SetPosition n rootPosition,
                                 PositionInitialize rootPosition n (position rootGame)])))"

subsection \<open>Vocabulary of the statements about \<open>clearRoot\<close>\<close>

definition resumable :: "'p Nodes \<Rightarrow> 'p \<Rightarrow> node \<Rightarrow> bool" where
  \<comment> \<open>the test of the inner loop: same position as the current game, not a true terminal\<close>
  "resumable ns rp g = (isSamePosition ns (n_position ns g) rp \<and> \<not> isTrueTerminal ns g)"

definition grandChildren :: "'p Nodes \<Rightarrow> node \<Rightarrow> node list" where
  \<comment> \<open>all grandchildren of \<open>r\<close>, child by child\<close>
  "grandChildren ns r = concat (map (children ns) (children ns r))"

definition selected :: "'p Nodes \<Rightarrow> 'p \<Rightarrow> node list \<Rightarrow> node list" where
  \<comment> \<open>the resumable grandchildren that the iteration reaches: the first one below each child\<close>
  "selected ns rp cs = List.map_filter (\<lambda>c. find (resumable ns rp) (children ns c)) cs"

fun resumeCalls :: "node \<Rightarrow> node list \<Rightarrow> 'p call list" where
  \<comment> \<open>the calls made as the nodes \<open>gs\<close> are taken as root one after the other, \<open>prev\<close>
      being the root before\<close>
  "resumeCalls prev [] = []"
| "resumeCalls prev (g # gs) =
     [SetAsRootNode g, UnlinkNode prev, UpdateTranspositions g] @ resumeCalls g gs"

subsection \<open>Example states\<close>

definition exInfo :: SearchInfo where
  "exInfo = \<lparr> depth = 0, trend = Worse, trendDegree = 0 \<rparr>"

definition exClock :: Clock where
  \<comment> \<open>a clock as the constructor leaves it\<close>
  "exClock = Clock_new exInfo White"




definition exCache :: "nat Cache" where
  \<comment> \<open>an empty arena whose next slot is \<open>0\<close>; the position with hash \<open>7\<close> is cached as
      entry \<open>3\<close>, a new entry would be \<open>4\<close>\<close>
  "exCache =
     \<lparr> used = 0,
       newNode = Some 0,
       positionHash = (\<lambda>p. of_nat p),
       containsNodePosition = (\<lambda>h. h = 7),
       nodePosition = (\<lambda>h. 3),
       newNodePosition = (\<lambda>h. 4) \<rparr>"

declare clearRoot.simps [simp del]

declare embodiedRoot.simps [simp del]

subsection \<open>Facts about the helpers\<close>

lemma pow2_Suc: "0 \<le> e \<Longrightarrow> pow2 (e + 1) = 2 * pow2 e"
  by (simp add: pow2_def nat_add_distrib)

lemma ilog2up_bounds:
  "1 \<le> x \<Longrightarrow> 0 \<le> ilog2up x \<and> pow2 (ilog2up x) \<le> x \<and> x < pow2 (ilog2up x + 1)"
proof (induction x rule: ilog2up.induct)
  case (1 x)
  show ?case
  proof (cases "x < 2")
    case True
    with "1.prems" show ?thesis by (simp add: ilog2up.simps [of x] pow2_def)
  next
    case False
    then have "1 \<le> x / 2" by simp
    with "1.IH" False have ih: "0 \<le> ilog2up (x / 2)" "pow2 (ilog2up (x / 2)) \<le> x / 2"
      "x / 2 < pow2 (ilog2up (x / 2) + 1)" by simp_all
    have e: "ilog2up x = ilog2up (x / 2) + 1"
      using False by (simp add: ilog2up.simps [of x])
    have a: "pow2 (ilog2up (x / 2) + 1) = 2 * pow2 (ilog2up (x / 2))"
      using ih(1) by (rule pow2_Suc)
    have b: "pow2 (ilog2up (x / 2) + 1 + 1) = 2 * pow2 (ilog2up (x / 2) + 1)"
      using ih(1) by (intro pow2_Suc) simp
    from ih a b have "0 \<le> ilog2up (x / 2) + 1" "pow2 (ilog2up (x / 2) + 1) \<le> x"
      "x < pow2 (ilog2up (x / 2) + 1 + 1)" by simp_all
    then show ?thesis
      unfolding e by simp
  qed
qed

lemma roundToEven_ge: "of_int n \<le> q \<Longrightarrow> n \<le> roundToEven q"
proof -
  assume "of_int n \<le> q"
  then have "n \<le> \<lfloor>q\<rfloor>" by (simp add: le_floor_iff)
  then show ?thesis by (simp add: roundToEven_def Let_def)
qed

text \<open>Rounding to a float does not go below an integer of at most 24 bits.\<close>

lemma toFloat_ge_int:
  assumes k: "0 < k" "k \<le> 2 ^ 24" and x: "of_int k \<le> x"
  shows "of_int k \<le> toFloat x"
proof -
  have "(1::rat) \<le> of_int k" using k(1) by simp
  with x have x1: "1 \<le> x" by linarith
  then have ax: "\<bar>x\<bar> = x" "x \<noteq> 0" by simp_all
  let ?e = "ilog2up x"
  from ilog2up_bounds [OF x1] have e: "0 \<le> ?e" "pow2 ?e \<le> x" by simp_all
  have tf: "toFloat x = of_int (roundToEven (x / pow2 (?e - 23))) * pow2 (?e - 23)"
    using x1 by (simp add: toFloat_def ax ilog2_def Let_def)
  show ?thesis
  proof (cases "?e \<le> 23")
    case True
    then have s: "pow2 (?e - 23) = 1 / 2 ^ nat (23 - ?e)"
      by (cases "?e = 23") (simp_all add: pow2_def)
    have "of_int (k * 2 ^ nat (23 - ?e)) \<le> x / pow2 (?e - 23)"
      using x by (simp add: s)
    then have "k * 2 ^ nat (23 - ?e) \<le> roundToEven (x / pow2 (?e - 23))"
      by (rule roundToEven_ge)
    then have "of_int (k * 2 ^ nat (23 - ?e)) \<le> (of_int (roundToEven (x / pow2 (?e - 23))) :: rat)"
      by (simp only: of_int_le_iff)
    then show ?thesis
      unfolding tf s by (simp add: field_simps)
  next
    case False
    then have big: "24 \<le> ?e" by simp
    then have s: "pow2 (?e - 23) = 2 ^ nat (?e - 23)" by (simp add: pow2_def)
    have pe: "pow2 ?e = 2 ^ 23 * 2 ^ nat (?e - 23)"
    proof -
      have "nat ?e = 23 + nat (?e - 23)" using big by simp
      then have "(2::rat) ^ nat ?e = 2 ^ 23 * 2 ^ nat (?e - 23)"
        by (simp only: power_add)
      with e(1) show ?thesis by (simp add: pow2_def)
    qed
    have "of_int (2 ^ 23) \<le> x / pow2 (?e - 23)"
      using e(2) unfolding pe s by (simp add: field_simps)
    then have "2 ^ 23 \<le> roundToEven (x / pow2 (?e - 23))"
      by (rule roundToEven_ge)
    then have "(of_int (2 ^ 23) :: rat) \<le> of_int (roundToEven (x / pow2 (?e - 23)))"
      by (simp only: of_int_le_iff)
    then have "(2 ^ 23 :: rat) \<le> of_int (roundToEven (x / pow2 (?e - 23)))"
      by simp
    then have "pow2 ?e \<le> toFloat x"
      unfolding tf pe s by (simp add: mult_right_mono)
    moreover have "(2::rat) ^ 24 \<le> pow2 ?e"
    proof -
      have "(2::rat) ^ 24 \<le> 2 ^ nat ?e" using big by (intro power_increasing) simp_all
      with e(1) show ?thesis by (simp add: pow2_def)
    qed
    moreover have "(of_int k :: rat) \<le> 2 ^ 24"
    proof -
      have "(of_int k :: rat) \<le> of_int (2 ^ 24)" using k(2) by (simp only: of_int_le_iff)
      then show ?thesis by simp
    qed
    ultimately show ?thesis by linarith
  qed
qed

lemma toFloat_0: "toFloat 0 = 0"
  by (simp add: toFloat_def)

lemma toFloat_1: "toFloat 1 = 1"
  by code_simp

lemma qRound_0: "qRound 0 = 0"
  by code_simp

lemma qRound_ge:
  assumes "0 < k" and "k \<le> 2 ^ 24" and "of_int k \<le> d"
  shows "k \<le> qRound d"
proof -
  have k0: "(0::rat) \<le> of_int k" using assms(1) by simp
  with assms(3) have d: "0 \<le> d" by linarith
  have "of_int k \<le> d + 1 / 2" using assms(3) by simp
  with assms(1,2) have f: "of_int k \<le> toFloat (d + 1 / 2)" by (rule toFloat_ge_int)
  then have "k \<le> \<lfloor>toFloat (d + 1 / 2)\<rfloor>" by (simp add: le_floor_iff)
  moreover from k0 f have "0 \<le> toFloat (d + 1 / 2)" by linarith
  ultimately show ?thesis using d by (simp add: qRound_def fadd_def floatToInt_def)
qed

lemma cdiv_3_8: "cdiv 3 8 = 0"
  by (simp add: cdiv_def)

lemma cdiv_5_4: "cdiv 5 4 = 1"
  by (simp add: cdiv_def)

lemma expectedHalfMovesTillEOG_low:
  "m_materialScore c < 20 \<Longrightarrow> expectedHalfMovesTillEOG c = m_materialScore c + 10"
  by (simp add: expectedHalfMovesTillEOG_def)

lemma expectedHalfMovesTillEOG_mid:
  "20 \<le> m_materialScore c \<Longrightarrow> m_materialScore c \<le> 60 \<Longrightarrow> expectedHalfMovesTillEOG c = 22"
  by (simp add: expectedHalfMovesTillEOG_def cdiv_3_8 floatOfInt_def fmul_def toFloat_0 qRound_0)

lemma expectedHalfMovesTillEOG_high:
  assumes "60 < m_materialScore c"
  shows "31 \<le> expectedHalfMovesTillEOG c"
proof -
  let ?m = "m_materialScore c"
  have "(of_int 61 :: rat) \<le> of_int ?m" using assms by simp
  then have "of_int 61 \<le> floatOfInt ?m"
    unfolding floatOfInt_def by (intro toFloat_ge_int) simp_all
  then have "of_int 61 \<le> 1 * floatOfInt ?m" by simp
  then have "of_int 61 \<le> fmul (floatOfInt (cdiv 5 4)) (floatOfInt ?m)"
    unfolding fmul_def cdiv_5_4 floatOfInt_def [of 1] of_int_1 toFloat_1
    by (intro toFloat_ge_int) simp_all
  then have "61 \<le> qRound (fmul (floatOfInt (cdiv 5 4)) (floatOfInt ?m))"
    by (intro qRound_ge) simp_all
  with assms show ?thesis by (simp add: expectedHalfMovesTillEOG_def)
qed

lemma expectedHalfMovesTillEOG_zero:
  "expectedHalfMovesTillEOG c = 0 \<longleftrightarrow> m_materialScore c = - 10"
proof (cases "m_materialScore c < 20")
  case True
  then show ?thesis by (auto simp: expectedHalfMovesTillEOG_low)
next
  case False
  show ?thesis
  proof (cases "m_materialScore c \<le> 60")
    case True
    with False show ?thesis by (simp add: expectedHalfMovesTillEOG_mid)
  next
    case high: False
    then have "31 \<le> expectedHalfMovesTillEOG c"
      by (intro expectedHalfMovesTillEOG_high) simp
    with high show ?thesis by simp
  qed
qed

lemma qRound_example_80: "qRound (fmul (floatOfInt 1) (floatOfInt 80)) = 80"
  by code_simp

lemma qRound_example_100: "qRound (fmul (floatOfInt 100) 1) = 100"
  by code_simp

lemma qRound_example_6700: "qRound (fmul (floatOfInt 14975) (15011547 / 33554432)) = 6700"
  by code_simp

lemma quint64_nonneg: "0 \<le> x \<Longrightarrow> x < 2 ^ 64 \<Longrightarrow> quint64 x = x"
  by (simp add: quint64_def)

lemma quint64_neg:
  assumes "- (2 ^ 63) \<le> x" and "x < 0"
  shows "quint64 x = x + 2 ^ 64"
proof -
  have "(x + 2 ^ 64) mod 2 ^ 64 = x + 2 ^ 64"
    using assms by (intro mod_pos_pos_trivial) simp_all
  then show ?thesis by (simp add: quint64_def)
qed

lemma quint64_minus1: "quint64 (- 1) = 2 ^ 64 - 1"
  by (simp add: quint64_def)

lemma quint64_le: "quint64 x \<le> 2 ^ 64 - 1"
proof -
  have "x mod 2 ^ 64 < (2 ^ 64 :: int)" by (rule pos_mod_bound) simp
  then show ?thesis by (simp add: quint64_def)
qed

subsection \<open>The three outcomes of \<open>calculateDeadline\<close>\<close>

lemma calculateDeadline_infinite:
  "m_infinite c \<Longrightarrow>
     calculateDeadline overhead elapsed isPartial c =
       Inr (c\<lparr>m_deadline := - 1, m_timeout := None\<rparr>)"
  by (simp add: calculateDeadline_def)

lemma calculateDeadline_zero:
  "\<not> m_infinite c \<Longrightarrow> m_materialScore c = - 10 \<Longrightarrow>
     calculateDeadline overhead elapsed isPartial c = Inl DivisionByZero"
  by (simp add: calculateDeadline_def expectedHalfMovesTillEOG_zero)

lemma calculateDeadline_finite:
  assumes "\<not> m_infinite c" and "m_materialScore c \<noteq> - 10"
  shows "calculateDeadline overhead elapsed isPartial c =
     Inr (c\<lparr>m_trendFactor := trendFactorFor overhead c,
            m_deadline := deadlineFor overhead c,
            m_timeout := Some (max 0 (toInt32 (deadlineFor overhead c - elapsed)))\<rparr>)"
proof -
  have z: "expectedHalfMovesTillEOG c \<noteq> 0"
    using assms(2) by (simp add: expectedHalfMovesTillEOG_zero)
  show ?thesis
    unfolding calculateDeadline_def deadlineFor_def trendFactorFor_def Let_def
    using assms(1) z by (simp only: if_False)
qed

lemma frame_parts:
  "expectedHalfMovesTillEOG (c\<lparr>m_trendFactor := a\<rparr>) = expectedHalfMovesTillEOG c"
  "time (c\<lparr>m_trendFactor := a\<rparr>) army = time c army"
  "increment (c\<lparr>m_trendFactor := a\<rparr>) army = increment c army"
  "time (c\<lparr>m_info := info\<rparr>) army = time c army"
  "time (c\<lparr>m_isActive := True, m_info := info0, m_onTheClock := army', m_timeout := None\<rparr>) army
     = time c army"
  by (simp_all add: expectedHalfMovesTillEOG_def time_def increment_def split del: if_split cong: if_cong)

lemma frame_trendFactor:
  "deadlineFor overhead (c\<lparr>m_trendFactor := a\<rparr>) = deadlineFor overhead c"
  by (simp add: deadlineFor_def frame_parts split del: if_split cong: if_cong)

lemma trendFactorFor_info:
  "trendFactorFor overhead (c\<lparr>m_info := info\<rparr>) =
     max 0 (if trend info \<noteq> Better
            then m_trendFactor c
                 + qRound (fmul (floatOfInt (cdiv (time c (m_onTheClock c) - overhead) 4)) (trendDegree info))
            else cdiv (m_trendFactor c) 2)"
  by (simp add: trendFactorFor_def frame_parts split del: if_split cong: if_cong)

lemma trendFactorFor_start:
  "trendFactorFor overhead
     (c\<lparr>m_isActive := True, m_info := info0, m_onTheClock := army, m_timeout := None\<rparr>) =
     max 0 (if trend info0 \<noteq> Better
            then m_trendFactor c
                 + qRound (fmul (floatOfInt (cdiv (time c army - overhead) 4)) (trendDegree info0))
            else cdiv (m_trendFactor c) 2)"
  by (simp add: trendFactorFor_def frame_parts split del: if_split cong: if_cong)

lemma deadlineFor_moveTime:
  "m_moveTime c \<noteq> - 1 \<Longrightarrow> deadlineFor overhead c = max 0 (m_moveTime c - overhead)"
  by (simp add: deadlineFor_def)

lemma deadlineFor_bounds:
  assumes "m_moveTime c = - 1" and "time c (m_onTheClock c) \<noteq> - 1"
    and "overhead \<le> time c (m_onTheClock c)"
  shows "0 \<le> deadlineFor overhead c" and "deadlineFor overhead c \<le> time c (m_onTheClock c) - overhead"
  using assms by (simp_all add: deadlineFor_def)

lemma deadlineFor_fallback:
  "m_moveTime c = - 1 \<Longrightarrow> time c (m_onTheClock c) = - 1 \<Longrightarrow> deadlineFor overhead c = 5000"
  by (simp add: deadlineFor_def)

lemma exClock_fields:
  "m_infinite exClock = False" "m_moveTime exClock = 0" "m_materialScore exClock = 0"
  "m_whiteTime exClock = - 1" "m_blackTime exClock = - 1" "m_trendFactor exClock = 0"
  "m_onTheClock exClock = White" "m_info exClock = exInfo" "m_deadline exClock = 0"
  by (simp_all add: exClock_def Clock_new_def boolToInt_def)

lemma exInfo_fields: "depth exInfo = 0" "trend exInfo = Worse" "trendDegree exInfo = 0"
  by (simp_all add: exInfo_def)

subsection \<open>Claims about the clock\<close>

text \<open>
  C1. The specification gives the expected number of half moves till the end of the game as
  \<open>m + 10\<close> below 20, \<open>round(0.375 m) + 22\<close> from 20 to 60 and \<open>round(1.25 m) - 30\<close>
  above 60. The code divides the integer literals first, so that the factors are \<open>0\<close>
  and \<open>1\<close>: for a material score of 40 it returns 22 where the table gives 37, and for 80
  it returns 50 where the table gives 70.
\<close>

theorem expectedHalfMovesTillEOG_integer_division:
  "expectedHalfMovesTillEOG (c\<lparr>m_materialScore := 40\<rparr>) = 22
   \<and> expectedHalfMovesTillEOG_spec 40 = 37
   \<and> expectedHalfMovesTillEOG (c\<lparr>m_materialScore := 80\<rparr>) = 50
   \<and> expectedHalfMovesTillEOG_spec 80 = 70"
proof -
  have a: "expectedHalfMovesTillEOG (c\<lparr>m_materialScore := 40\<rparr>) = 22"
    by (simp add: expectedHalfMovesTillEOG_mid)
  have b: "expectedHalfMovesTillEOG (c\<lparr>m_materialScore := 80\<rparr>) = 50"
    by (simp add: expectedHalfMovesTillEOG_def cdiv_5_4 qRound_example_80)
  have s: "expectedHalfMovesTillEOG_spec 40 = 37" "expectedHalfMovesTillEOG_spec 80 = 70"
    by (simp_all add: expectedHalfMovesTillEOG_spec_def roundHalfUp_def floor_eq_iff)
  from a b s show ?thesis by simp
qed

text \<open>
  C2, as stated: with a move time of 50 ms and an overhead of 100 ms the deadline is 0,
  not \<open>50 - 100\<close>.
\<close>

theorem calculateDeadline_moveTime_counterexample:
  "\<not> m_infinite (setMoveTime 50 exClock)
   \<and> 0 \<le> m_moveTime (setMoveTime 50 exClock)
   \<and> map_sum id m_deadline (calculateDeadline 100 0 False (setMoveTime 50 exClock)) = Inr 0
   \<and> map_sum id m_deadline (calculateDeadline 100 0 False (setMoveTime 50 exClock))
       \<noteq> Inr (m_moveTime (setMoveTime 50 exClock) - 100)"
  by (simp add: calculateDeadline_finite deadlineFor_moveTime setMoveTime_def exClock_fields)

text \<open>
  C2, amended. For a clock that is not infinite, whose move time is set
  (\<open>moveTime \<ge> 0\<close>) and whose material score is not \<open>-10\<close> (the half-move estimate, by
  which the time is divided first, is then not zero), \<open>calculateDeadline\<close> returns and the
  deadline is \<open>max 0 (moveTime - overhead)\<close>; this is \<open>moveTime - overhead\<close> when the
  move time is at least the overhead.
\<close>

theorem calculateDeadline_moveTime:
  assumes "\<not> m_infinite c" and "0 \<le> m_moveTime c" and "m_materialScore c \<noteq> - 10"
  shows "\<exists>c'. calculateDeadline overhead elapsed isPartial c = Inr c'
           \<and> m_deadline c' = max 0 (m_moveTime c - overhead)
           \<and> (overhead \<le> m_moveTime c \<longrightarrow> m_deadline c' = m_moveTime c - overhead)"
  using assms by (simp add: calculateDeadline_finite deadlineFor_moveTime)

theorem calculateDeadline_moveTime_witness:
  "\<not> m_infinite (setMoveTime 1000 exClock)
   \<and> 0 \<le> m_moveTime (setMoveTime 1000 exClock)
   \<and> m_materialScore (setMoveTime 1000 exClock) \<noteq> - 10
   \<and> (100::int) \<le> m_moveTime (setMoveTime 1000 exClock)
   \<and> map_sum id m_deadline (calculateDeadline 100 0 False (setMoveTime 1000 exClock)) = Inr 900"
proof -
  have h1: "\<not> m_infinite (setMoveTime 1000 exClock)"
    by (simp add: setMoveTime_def exClock_fields)
  have h2: "0 \<le> m_moveTime (setMoveTime 1000 exClock)"
    by (simp add: setMoveTime_def)
  have h3: "m_materialScore (setMoveTime 1000 exClock) \<noteq> - 10"
    by (simp add: setMoveTime_def exClock_fields)
  have v: "m_moveTime (setMoveTime 1000 exClock) = 1000"
    by (simp add: setMoveTime_def)
  from calculateDeadline_moveTime [OF h1 h2 h3, of 100 0 False] h1 h2 h3 show ?thesis
    by (auto simp: v)
qed

text \<open>
  C3, as stated: with 200 ms on the clock, an overhead of 100 ms and a move time of
  10000 ms the deadline is 9900 ms, outside \<open>[0, 200 - 100]\<close>.
\<close>

theorem calculateDeadline_bounds_counterexample:
  "\<not> m_infinite (setMoveTime 10000 (setTime White 200 exClock))
   \<and> 100 \<le> time (setMoveTime 10000 (setTime White 200 exClock))
               (m_onTheClock (setMoveTime 10000 (setTime White 200 exClock)))
   \<and> map_sum id m_deadline
        (calculateDeadline 100 0 False (setMoveTime 10000 (setTime White 200 exClock))) = Inr 9900
   \<and> \<not> 9900 \<le> time (setMoveTime 10000 (setTime White 200 exClock))
                   (m_onTheClock (setMoveTime 10000 (setTime White 200 exClock))) - 100"
  by (simp add: calculateDeadline_finite deadlineFor_moveTime setMoveTime_def setTime_def time_def
      exClock_fields)

text \<open>
  C3, amended. For a clock that is not infinite, with no move time (\<open>moveTime = -1\<close>),
  with the time of the side on the clock set (not \<open>-1\<close>) and at least the overhead, and
  with a material score other than \<open>-10\<close>, \<open>calculateDeadline\<close> returns and the deadline
  lies in \<open>[0, time - overhead]\<close>.
\<close>

theorem calculateDeadline_bounds:
  assumes "\<not> m_infinite c" and "m_moveTime c = - 1"
    and "time c (m_onTheClock c) \<noteq> - 1" and "overhead \<le> time c (m_onTheClock c)"
    and "m_materialScore c \<noteq> - 10"
  shows "\<exists>c'. calculateDeadline overhead elapsed isPartial c = Inr c'
           \<and> 0 \<le> m_deadline c' \<and> m_deadline c' \<le> time c (m_onTheClock c) - overhead"
  using assms by (simp add: calculateDeadline_finite deadlineFor_bounds)

theorem calculateDeadline_bounds_witness:
  "\<not> m_infinite (setMoveTime (- 1) (setTime White 200 exClock))
   \<and> m_moveTime (setMoveTime (- 1) (setTime White 200 exClock)) = - 1
   \<and> time (setMoveTime (- 1) (setTime White 200 exClock)) White \<noteq> - 1
   \<and> 100 \<le> time (setMoveTime (- 1) (setTime White 200 exClock)) White
   \<and> m_materialScore (setMoveTime (- 1) (setTime White 200 exClock)) \<noteq> - 10
   \<and> (\<exists>c'. calculateDeadline 100 0 False (setMoveTime (- 1) (setTime White 200 exClock)) = Inr c'
          \<and> 0 \<le> m_deadline c' \<and> m_deadline c' \<le> 100)"
proof -
  let ?c = "setMoveTime (- 1) (setTime White 200 exClock)"
  have f: "m_infinite ?c = False" "m_moveTime ?c = - 1" "m_onTheClock ?c = White"
    "time ?c White = 200" "m_materialScore ?c = 0"
    by (simp_all add: setMoveTime_def setTime_def time_def exClock_fields)
  have h1: "\<not> m_infinite ?c" and h2: "m_moveTime ?c = - 1"
    and h3: "time ?c (m_onTheClock ?c) \<noteq> - 1" and h4: "100 \<le> time ?c (m_onTheClock ?c)"
    and h5: "m_materialScore ?c \<noteq> - 10"
    by (simp_all add: f)
  from calculateDeadline_bounds [OF h1 h2 h3 h4 h5, of 0 False] show ?thesis
    by (simp add: f)
qed

text \<open>
  C4, as stated: with a deadline of 100 ms and 100 ms elapsed, the elapsed time is at least
  the deadline and the deadline is not negative, yet \<open>hasExpired\<close> is false: the timer
  has expired only once more than the deadline has elapsed.
\<close>

theorem hasExpired_counterexample:
  "m_deadline (exClock\<lparr>m_deadline := 100\<rparr>) \<le> 100
   \<and> 0 \<le> m_deadline (exClock\<lparr>m_deadline := 100\<rparr>)
   \<and> \<not> hasExpired 100 (exClock\<lparr>m_deadline := 100\<rparr>)"
  by (simp add: hasExpired_def QElapsedTimer_hasExpired_def quint64_def)

text \<open>
  C4, amended. For an elapsed time and a deadline that are \<open>qint64\<close> values, the elapsed
  time not negative, \<open>hasExpired\<close> is true if and only if the elapsed time is greater
  than the deadline and the deadline is not negative. When the infinite flag is set,
  \<open>calculateDeadline\<close> returns with the deadline \<open>-1\<close>, and \<open>hasExpired\<close> is then false
  for every elapsed time.
\<close>

theorem hasExpired_iff:
  "(0 \<le> elapsed \<and> elapsed < 2 ^ 63 \<and> - (2 ^ 63) \<le> m_deadline c \<and> m_deadline c < 2 ^ 63 \<longrightarrow>
      hasExpired elapsed c = (m_deadline c < elapsed \<and> 0 \<le> m_deadline c))
   \<and> (m_infinite c \<longrightarrow>
        (\<exists>c'. calculateDeadline overhead elapsed' isPartial c = Inr c' \<and> m_deadline c' = - 1
           \<and> (\<forall>x. \<not> hasExpired x c')))"
proof (intro conjI impI)
  assume a: "0 \<le> elapsed \<and> elapsed < 2 ^ 63 \<and> - (2 ^ 63) \<le> m_deadline c \<and> m_deadline c < 2 ^ 63"
  show "hasExpired elapsed c = (m_deadline c < elapsed \<and> 0 \<le> m_deadline c)"
  proof (cases "0 \<le> m_deadline c")
    case True
    with a show ?thesis
      by (simp add: hasExpired_def QElapsedTimer_hasExpired_def quint64_nonneg)
  next
    case False
    with a show ?thesis
      by (simp add: hasExpired_def QElapsedTimer_hasExpired_def quint64_nonneg quint64_neg)
  qed
next
  assume "m_infinite c"
  then show "\<exists>c'. calculateDeadline overhead elapsed' isPartial c = Inr c' \<and> m_deadline c' = - 1
           \<and> (\<forall>x. \<not> hasExpired x c')"
    using quint64_le
    by (simp add: calculateDeadline_infinite hasExpired_def QElapsedTimer_hasExpired_def
        quint64_minus1 not_less)
qed

theorem hasExpired_iff_witness:
  "(0::int) \<le> 150 \<and> (150::int) < 2 ^ 63
   \<and> - (2 ^ 63) \<le> m_deadline (setInfinite True (exClock\<lparr>m_deadline := 100\<rparr>))
   \<and> m_deadline (setInfinite True (exClock\<lparr>m_deadline := 100\<rparr>)) < 2 ^ 63
   \<and> m_infinite (setInfinite True (exClock\<lparr>m_deadline := 100\<rparr>))
   \<and> hasExpired 150 (setInfinite True (exClock\<lparr>m_deadline := 100\<rparr>))
   \<and> (\<exists>c'. calculateDeadline 100 150 False (setInfinite True (exClock\<lparr>m_deadline := 100\<rparr>)) = Inr c'
          \<and> m_deadline c' = - 1 \<and> \<not> hasExpired 150 c')"
proof -
  let ?c = "setInfinite True (exClock\<lparr>m_deadline := 100\<rparr>)"
  have f: "m_deadline ?c = 100" "m_infinite ?c = True"
    by (simp_all add: setInfinite_def)
  from hasExpired_iff [of 150 ?c 100 150 False] show ?thesis
    by (auto simp: f)
qed

text \<open>
  C5, as stated: on a clock with the infinite flag set, with 500 ms left, an overhead of
  100 ms and a report of trend \<open>Worse\<close> with degree 1, the claim makes the trend factor
  \<open>0 + round((400 / 4) * 1) = 100\<close>; \<open>updateDeadline\<close> leaves it at 0.
\<close>

theorem trendFactor_update_counterexample:
  "map_sum id m_trendFactor
     (updateDeadline 100 0 \<lparr>depth = 5, trend = Worse, trendDegree = 1\<rparr> False
        (setInfinite True (setTime White 500 exClock))) = Inr 0
   \<and> max 0 (m_trendFactor (setInfinite True (setTime White 500 exClock))
            + qRound (fmul
                (floatOfInt (cdiv (time (setInfinite True (setTime White 500 exClock)) White - 100) 4))
                (trendDegree \<lparr>depth = 5, trend = Worse, trendDegree = 1\<rparr>))) = 100"
proof -
  let ?c = "setInfinite True (setTime White 500 exClock)"
  have f: "m_trendFactor ?c = 0" "time ?c White = 500"
    by (simp_all add: setInfinite_def setTime_def time_def exClock_fields)
  have i: "m_infinite (?c\<lparr>m_info := \<lparr>depth = 5, trend = Worse, trendDegree = 1\<rparr>\<rparr>)"
    by (simp add: setInfinite_def)
  have c: "cdiv 400 4 = 100"
    by (simp add: cdiv_def)
  have u: "map_sum id m_trendFactor
     (updateDeadline 100 0 \<lparr>depth = 5, trend = Worse, trendDegree = 1\<rparr> False ?c) = Inr 0"
    by (simp add: updateDeadline_def calculateDeadline_infinite [OF i])
       (simp add: setInfinite_def setTime_def exClock_fields)
  show ?thesis
    by (simp add: u f c qRound_example_100)
qed

text \<open>
  C5, amended. A deadline computation (\<open>updateDeadline\<close>, or \<open>startDeadline\<close> with the
  default search information) on a clock whose infinite flag is not set and whose
  material score is not \<open>-10\<close> returns, and updates the trend factor so: with
  \<open>maximum = time - overhead\<close> and \<open>raw = qRound((maximum / 4) * trendDegree)\<close>, where
  the division is that of integers, its quotient is converted to \<open>float\<close>, the product
  is that of floats and \<open>qRound\<close> is Qt's rounding of a float (\<open>int(d + 0.5f)\<close> for
  \<open>d \<ge> 0\<close>), the trend factor grows by \<open>raw\<close> if the trend is not \<open>Better\<close> and is
  halved otherwise, and is then raised to 0 if it is below. With the infinite flag set the
  computation returns with the trend factor as it was.
\<close>

theorem trendFactor_update:
  "(\<not> m_infinite c \<and> m_materialScore c \<noteq> - 10 \<longrightarrow>
      (\<exists>c'. updateDeadline overhead elapsed info isPartial c = Inr c'
         \<and> m_trendFactor c' =
             max 0 (if trend info \<noteq> Better
                    then m_trendFactor c
                         + qRound (fmul (floatOfInt (cdiv (time c (m_onTheClock c) - overhead) 4))
                                        (trendDegree info))
                    else cdiv (m_trendFactor c) 2))
      \<and> (\<exists>c'. startDeadline overhead elapsed info0 army c = Inr c'
         \<and> m_trendFactor c' =
             max 0 (if trend info0 \<noteq> Better
                    then m_trendFactor c
                         + qRound (fmul (floatOfInt (cdiv (time c army - overhead) 4))
                                        (trendDegree info0))
                    else cdiv (m_trendFactor c) 2)))
   \<and> (m_infinite c \<longrightarrow>
      (\<exists>c'. updateDeadline overhead elapsed info isPartial c = Inr c'
         \<and> m_trendFactor c' = m_trendFactor c)
      \<and> (\<exists>c'. startDeadline overhead elapsed info0 army c = Inr c'
         \<and> m_trendFactor c' = m_trendFactor c))"
proof (intro conjI impI)
  assume a: "\<not> m_infinite c \<and> m_materialScore c \<noteq> - 10"
  let ?u = "c\<lparr>m_info := info\<rparr>"
  let ?s = "c\<lparr>m_isActive := True, m_info := info0, m_onTheClock := army, m_timeout := None\<rparr>"
  from a have u: "\<not> m_infinite ?u" "m_materialScore ?u \<noteq> - 10"
    and s: "\<not> m_infinite ?s" "m_materialScore ?s \<noteq> - 10"
    by simp_all
  show "\<exists>c'. updateDeadline overhead elapsed info isPartial c = Inr c'
         \<and> m_trendFactor c' =
             max 0 (if trend info \<noteq> Better
                    then m_trendFactor c
                         + qRound (fmul (floatOfInt (cdiv (time c (m_onTheClock c) - overhead) 4))
                                        (trendDegree info))
                    else cdiv (m_trendFactor c) 2)"
    by (simp add: updateDeadline_def calculateDeadline_finite [OF u] trendFactorFor_info)
  show "\<exists>c'. startDeadline overhead elapsed info0 army c = Inr c'
         \<and> m_trendFactor c' =
             max 0 (if trend info0 \<noteq> Better
                    then m_trendFactor c
                         + qRound (fmul (floatOfInt (cdiv (time c army - overhead) 4))
                                        (trendDegree info0))
                    else cdiv (m_trendFactor c) 2)"
    by (simp add: startDeadline_def calculateDeadline_finite [OF s] trendFactorFor_start)
next
  assume a: "m_infinite c"
  then show "\<exists>c'. updateDeadline overhead elapsed info isPartial c = Inr c'
         \<and> m_trendFactor c' = m_trendFactor c"
    by (simp add: updateDeadline_def calculateDeadline_infinite)
  from a show "\<exists>c'. startDeadline overhead elapsed info0 army c = Inr c'
         \<and> m_trendFactor c' = m_trendFactor c"
    by (simp add: startDeadline_def calculateDeadline_infinite)
qed

theorem trendFactor_update_witness:
  "\<not> m_infinite (setTime White 60000 exClock)
   \<and> m_materialScore (setTime White 60000 exClock) \<noteq> - 10
   \<and> m_infinite (setInfinite True exClock)
   \<and> (\<exists>c'. updateDeadline 100 0
               \<lparr>depth = 5, trend = Worse, trendDegree = 15011547 / 33554432\<rparr> False
               (setTime White 60000 exClock) = Inr c'
          \<and> m_trendFactor c' = 6700)
   \<and> (\<exists>c'. updateDeadline 100 0
               \<lparr>depth = 5, trend = Worse, trendDegree = 15011547 / 33554432\<rparr> False
               (setInfinite True exClock) = Inr c'
          \<and> m_trendFactor c' = 0)"
proof -
  let ?c = "setTime White 60000 exClock"
  let ?i = "\<lparr>depth = 5, trend = Worse, trendDegree = 15011547 / 33554432\<rparr>"
  have f: "m_infinite ?c = False" "m_materialScore ?c = 0" "m_trendFactor ?c = 0"
    "time ?c (m_onTheClock ?c) = 60000"
    "m_infinite (setInfinite True exClock) = True" "m_trendFactor (setInfinite True exClock) = 0"
    by (simp_all add: setInfinite_def setTime_def time_def exClock_fields)
  have c: "cdiv 59900 4 = 14975"
    by (simp add: cdiv_def)
  from trendFactor_update [of ?c 100 0 ?i False exInfo White]
       trendFactor_update [of "setInfinite True exClock" 100 0 ?i False exInfo White]
  show ?thesis
    by (simp add: f c qRound_example_6700)
qed

text \<open>
  C6. The deadline does not depend on the accumulated trend factor: two clocks that differ
  only in \<open>m_trendFactor\<close> give the same outcome of \<open>calculateDeadline\<close> (the same error,
  or the same deadline and the same timer interval).
\<close>

theorem deadline_independent_of_trendFactor:
  "map_sum id (\<lambda>c'. (m_deadline c', m_timeout c'))
     (calculateDeadline overhead elapsed isPartial (c\<lparr>m_trendFactor := a\<rparr>))
   = map_sum id (\<lambda>c'. (m_deadline c', m_timeout c'))
     (calculateDeadline overhead elapsed isPartial (c\<lparr>m_trendFactor := b\<rparr>))"
proof (cases "m_infinite c")
  case True
  then show ?thesis by (simp add: calculateDeadline_infinite)
next
  case False
  show ?thesis
  proof (cases "m_materialScore c = - 10")
    case True
    with False show ?thesis by (simp add: calculateDeadline_zero)
  next
    case ok: False
    with False show ?thesis by (simp add: calculateDeadline_finite frame_trendFactor)
  qed
qed

text \<open>
  C9. The specification has the move time of a clock that was never given one at \<open>-1\<close>
  (unused). The constructor initialises \<open>m_moveTime\<close> with \<open>false\<close>, that is 0, while
  \<open>calculateDeadline\<close> tests \<open>m_moveTime != -1\<close>: on a clock as constructed,
  \<open>startDeadline\<close> takes the move-time branch and the deadline is \<open>max 0 (0 - 100) = 0\<close>;
  after \<open>setMoveTime (-1)\<close> it is the fallback of 5000 ms.
\<close>

theorem Clock_new_moveTime:
  "m_moveTime (Clock_new info0 army0) = 0
   \<and> m_whiteTime (Clock_new info0 army0) = - 1 \<and> m_whiteIncrement (Clock_new info0 army0) = - 1
   \<and> m_blackTime (Clock_new info0 army0) = - 1 \<and> m_blackIncrement (Clock_new info0 army0) = - 1
   \<and> map_sum id m_deadline (startDeadline 100 0 info0 White (Clock_new info0 army0)) = Inr 0
   \<and> map_sum id m_deadline
        (startDeadline 100 0 info0 White (setMoveTime (- 1) (Clock_new info0 army0))) = Inr 5000"
proof -
  let ?a = "Clock_new info0 army0
              \<lparr>m_isActive := True, m_info := info0, m_onTheClock := White, m_timeout := None\<rparr>"
  let ?b = "setMoveTime (- 1) (Clock_new info0 army0)
              \<lparr>m_isActive := True, m_info := info0, m_onTheClock := White, m_timeout := None\<rparr>"
  have f: "m_moveTime (Clock_new info0 army0) = 0"
    "m_whiteTime (Clock_new info0 army0) = - 1" "m_whiteIncrement (Clock_new info0 army0) = - 1"
    "m_blackTime (Clock_new info0 army0) = - 1" "m_blackIncrement (Clock_new info0 army0) = - 1"
    by (simp_all add: Clock_new_def boolToInt_def)
  have a: "\<not> m_infinite ?a" "m_materialScore ?a \<noteq> - 10"
    and b: "\<not> m_infinite ?b" "m_materialScore ?b \<noteq> - 10"
    by (simp_all add: Clock_new_def setMoveTime_def)
  have ma: "m_moveTime ?a \<noteq> - 1" "m_moveTime ?a - 100 = - 100"
    by (simp_all add: f)
  have mb: "m_moveTime ?b = - 1" "time ?b (m_onTheClock ?b) = - 1"
    by (simp_all add: setMoveTime_def time_def f)
  have da: "deadlineFor 100 ?a = 0"
    by (simp add: deadlineFor_moveTime [OF ma(1)] f)
  have db: "deadlineFor 100 ?b = 5000"
    using mb by (rule deadlineFor_fallback)
  have ra: "map_sum id m_deadline (startDeadline 100 0 info0 White (Clock_new info0 army0)) = Inr 0"
    by (simp add: startDeadline_def calculateDeadline_finite [OF a] da)
  have rb: "map_sum id m_deadline
        (startDeadline 100 0 info0 White (setMoveTime (- 1) (Clock_new info0 army0))) = Inr 5000"
    by (simp add: startDeadline_def calculateDeadline_finite [OF b] db)
  from f ra rb show ?thesis by simp
qed

subsection \<open>The loops of \<open>clearRoot\<close>\<close>

lemma grandChildrenLoop_find:
  "grandChildrenLoop ns rp gs (r, calls, f) =
     (case find (resumable ns rp) gs of
        None \<Rightarrow> (r, calls, f)
      | Some g \<Rightarrow> (g, calls @ [SetAsRootNode g, UnlinkNode r, UpdateTranspositions g], True))"
  by (induction gs) (simp_all add: resumable_def)

lemma selected_Nil: "selected ns rp [] = []"
  by (simp add: selected_def map_filter_simps)

lemma selected_Cons:
  "selected ns rp (c # cs) =
     (case find (resumable ns rp) (children ns c) of
        None \<Rightarrow> selected ns rp cs
      | Some g \<Rightarrow> g # selected ns rp cs)"
  by (simp add: selected_def map_filter_simps split: option.splits)

lemma childrenLoop_selected:
  "childrenLoop ns rp cs (r, calls, f) =
     (last (r # selected ns rp cs), calls @ resumeCalls r (selected ns rp cs),
      f \<or> selected ns rp cs \<noteq> [])"
proof (induction cs arbitrary: r calls f)
  case Nil
  then show ?case by (simp add: selected_Nil)
next
  case (Cons c cs)
  show ?case
  proof (cases "find (resumable ns rp) (children ns c)")
    case None
    then show ?thesis by (simp add: grandChildrenLoop_find selected_Cons Cons.IH)
  next
    case (Some g)
    then show ?thesis by (simp add: grandChildrenLoop_find selected_Cons Cons.IH)
  qed
qed

lemma clearRoot_selected:
  assumes "m_resumePreviousPositionIfPossible t" "m_root t = Some r"
  shows "clearRoot ns rootGame (t, calls) =
     (if selected ns (position rootGame) (children ns r) = []
      then (t\<lparr>m_root := None\<rparr>, calls @ [UnlinkNode r, ResetNodes])
      else (t\<lparr>m_root := Some (last (selected ns (position rootGame) (children ns r)))\<rparr>,
            calls @ resumeCalls r (selected ns (position rootGame) (children ns r)) @ [ResetNodes]))"
  using assms by (simp add: clearRoot.simps childrenLoop_selected)

lemma find_filter: "find P xs = (case filter P xs of [] \<Rightarrow> None | x # _ \<Rightarrow> Some x)"
  by (induction xs) simp_all



lemma set_selected:
  "set (selected ns rp cs) \<subseteq> set (filter (resumable ns rp) (concat (map (children ns) cs)))"
proof (induction cs)
  case Nil
  then show ?case by (simp add: selected_Nil)
next
  case (Cons c cs)
  then show ?case
    by (auto simp: selected_Cons find_Some_iff split: option.splits)
qed

lemma length_selected:
  "length (selected ns rp cs) \<le> length (filter (resumable ns rp) (concat (map (children ns) cs)))"
proof (induction cs)
  case Nil
  then show ?case by (simp add: selected_Nil)
next
  case (Cons c cs)
  then show ?case
    by (cases "filter (resumable ns rp) (children ns c)") (simp_all add: selected_Cons find_filter)
qed

lemma selected_empty_iff:
  "selected ns rp cs = [] \<longleftrightarrow> filter (resumable ns rp) (concat (map (children ns) cs)) = []"
proof (induction cs)
  case Nil
  then show ?case by (simp add: selected_Nil)
next
  case (Cons c cs)
  then show ?case
    by (cases "filter (resumable ns rp) (children ns c)") (simp_all add: selected_Cons find_filter)
qed




lemma embodiedRoot_existing:
  "m_root t = Some r \<Longrightarrow> embodiedRoot asserts cache rootGame (t, calls) = Inr (Some r, t, calls)"
  by (simp add: embodiedRoot.simps)

lemma embodiedRoot_fresh:
  assumes "m_root t = None" and "\<not> (asserts \<and> used cache \<noteq> 0)" and "newNode cache = Some n"
  shows "embodiedRoot asserts cache rootGame (t, calls) =
          Inr (Some n, t\<lparr>m_root := Some n\<rparr>,
               calls @ [NewNode]
               @ (if containsNodePosition cache (positionHash cache (position rootGame)) then []
                  else [NewNodePosition (positionHash cache (position rootGame))])
               @ [NodeInitialize n None rootGame,
                  SetPosition n
                    (if containsNodePosition cache (positionHash cache (position rootGame))
                     then nodePosition cache (positionHash cache (position rootGame))
                     else newNodePosition cache (positionHash cache (position rootGame))),
                  PositionInitialize
                    (if containsNodePosition cache (positionHash cache (position rootGame))
                     then nodePosition cache (positionHash cache (position rootGame))
                     else newNodePosition cache (positionHash cache (position rootGame)))
                    n (position rootGame)])"
proof (cases "containsNodePosition cache (positionHash cache (position rootGame))")
  case True
  with assms show ?thesis by (simp add: embodiedRoot.simps Let_def)
next
  case False
  with assms show ?thesis by (simp add: embodiedRoot.simps Let_def)
qed

lemma embodiedRoot_assert:
  "m_root t = None \<Longrightarrow> asserts \<and> used cache \<noteq> 0 \<Longrightarrow>
     embodiedRoot asserts cache rootGame (t, calls) = Inl AssertionFailed"
  by (simp add: embodiedRoot.simps)

lemma embodiedRoot_null:
  "m_root t = None \<Longrightarrow> \<not> (asserts \<and> used cache \<noteq> 0) \<Longrightarrow> newNode cache = None \<Longrightarrow>
     embodiedRoot asserts cache rootGame (t, calls) =
       Inl (if asserts then AssertionFailed else NullDereference)"
  by (simp add: embodiedRoot.simps)

lemma embodiedRoot_not_null:
  assumes ret: "embodiedRoot asserts cache rootGame (t, calls) = Inr (res, t', calls')"
  shows "res \<noteq> None \<and> m_root t' = res"
proof (cases "m_root t")
  case (Some r')
  note ex = embodiedRoot_existing
         [OF Some, where asserts = asserts and cache = cache and rootGame = rootGame and calls = calls]
  from ret have "res = Some r' \<and> t' = t"
    unfolding ex by auto
  with Some show ?thesis by simp
next
  case None
  show ?thesis
  proof (cases "asserts \<and> used cache \<noteq> 0")
    case True
    from ret embodiedRoot_assert [OF None True, where rootGame = rootGame and calls = calls]
    show ?thesis by simp
  next
    case ok: False
    show ?thesis
    proof (cases "newNode cache")
      case nn: None
      from ret embodiedRoot_null [OF None ok nn, where rootGame = rootGame and calls = calls]
      show ?thesis by simp
    next
      case (Some n')
      note fr = embodiedRoot_fresh [OF None ok Some, where rootGame = rootGame and calls = calls]
      from ret have "res = Some n' \<and> t' = t\<lparr>m_root := Some n'\<rparr>"
        unfolding fr by auto
      then show ?thesis by simp
    qed
  qed
qed








subsection \<open>Claims about the tree\<close>

text \<open>
  Where one grandchild of the root \<open>r\<close> qualifies, or none, \<open>clearRoot\<close> with resuming
  enabled makes the calls the specification describes: \<open>setAsRootNode\<close> on the
  grandchild, \<open>unlinkNode\<close> on \<open>r\<close>, \<open>updateTranspositions\<close> on the grandchild, which is
  the new root; or \<open>unlinkNode\<close> on \<open>r\<close> and an empty root. \<open>cache.resetNodes()\<close> is the
  last call.
\<close>

lemma clearRoot_one_or_none:
  assumes "m_resumePreviousPositionIfPossible t" and "m_root t = Some r"
  shows
    "(\<forall>g. filter (resumable ns (position rootGame)) (grandChildren ns r) = [g] \<longrightarrow>
           clearRoot ns rootGame (t, calls) =
             (t\<lparr>m_root := Some g\<rparr>,
              calls @ [SetAsRootNode g, UnlinkNode r, UpdateTranspositions g, ResetNodes]))
     \<and> (filter (resumable ns (position rootGame)) (grandChildren ns r) = [] \<longrightarrow>
           clearRoot ns rootGame (t, calls) = (t\<lparr>m_root := None\<rparr>, calls @ [UnlinkNode r, ResetNodes]))"
proof (intro conjI impI allI)
  let ?P = "resumable ns (position rootGame)"
  let ?M = "filter ?P (grandChildren ns r)"
  let ?sel = "selected ns (position rootGame) (children ns r)"
  note cr = clearRoot_selected [OF assms, of ns rootGame calls]
  have sub: "set ?sel \<subseteq> set ?M"
    unfolding grandChildren_def by (rule set_selected)
  {
    fix g assume one: "?M = [g]"
    then have ne: "?sel \<noteq> []"
      by (simp add: selected_empty_iff grandChildren_def)
    have "length ?sel \<le> length ?M"
      using length_selected [of ns "position rootGame" "children ns r"]
      by (simp add: grandChildren_def)
    with one ne obtain x where x: "?sel = [x]"
      by (cases ?sel) auto
    with sub one have "x = g" by simp
    with x cr show "clearRoot ns rootGame (t, calls) =
             (t\<lparr>m_root := Some g\<rparr>,
              calls @ [SetAsRootNode g, UnlinkNode r, UpdateTranspositions g, ResetNodes])"
      by simp
  }
  {
    assume "?M = []"
    then have "?sel = []"
      by (simp add: selected_empty_iff grandChildren_def)
    with cr show "clearRoot ns rootGame (t, calls) = (t\<lparr>m_root := None\<rparr>, calls @ [UnlinkNode r, ResetNodes])"
      by simp
  }
qed





text \<open>
  C8. \<open>embodiedRoot\<close> returns the root that exists, changing nothing and calling nothing.
  With no root, no failing assertion and a node \<open>n\<close> handed out by the arena, it takes
  \<open>n\<close> as root, binds it to the entry cached for the hash of the current position, or to
  a new entry when none is cached, initialises the node and the entry, and returns \<open>n\<close>.
  Whenever it returns, what it returns is not null and is the root.
\<close>

theorem embodiedRoot_returns_root:
  "(m_root t = Some r \<longrightarrow>
      embodiedRoot asserts cache rootGame (t, calls) = Inr (Some r, t, calls))
   \<and> (m_root t = None \<and> (asserts \<longrightarrow> used cache = 0) \<and> newNode cache = Some n \<longrightarrow>
        embodiedRoot asserts cache rootGame (t, calls) =
          Inr (Some n, t\<lparr>m_root := Some n\<rparr>,
               calls @ [NewNode]
               @ (if containsNodePosition cache (positionHash cache (position rootGame)) then []
                  else [NewNodePosition (positionHash cache (position rootGame))])
               @ [NodeInitialize n None rootGame,
                  SetPosition n
                    (if containsNodePosition cache (positionHash cache (position rootGame))
                     then nodePosition cache (positionHash cache (position rootGame))
                     else newNodePosition cache (positionHash cache (position rootGame))),
                  PositionInitialize
                    (if containsNodePosition cache (positionHash cache (position rootGame))
                     then nodePosition cache (positionHash cache (position rootGame))
                     else newNodePosition cache (positionHash cache (position rootGame)))
                    n (position rootGame)]))
   \<and> (\<forall>res t' calls'.
        embodiedRoot asserts cache rootGame (t, calls) = Inr (res, t', calls') \<longrightarrow>
          res \<noteq> None \<and> m_root t' = res)"
proof (intro conjI)
  show "m_root t = Some r \<longrightarrow>
      embodiedRoot asserts cache rootGame (t, calls) = Inr (Some r, t, calls)"
    by (simp add: embodiedRoot_existing)
  show "m_root t = None \<and> (asserts \<longrightarrow> used cache = 0) \<and> newNode cache = Some n \<longrightarrow>
        embodiedRoot asserts cache rootGame (t, calls) =
          Inr (Some n, t\<lparr>m_root := Some n\<rparr>,
               calls @ [NewNode]
               @ (if containsNodePosition cache (positionHash cache (position rootGame)) then []
                  else [NewNodePosition (positionHash cache (position rootGame))])
               @ [NodeInitialize n None rootGame,
                  SetPosition n
                    (if containsNodePosition cache (positionHash cache (position rootGame))
                     then nodePosition cache (positionHash cache (position rootGame))
                     else newNodePosition cache (positionHash cache (position rootGame))),
                  PositionInitialize
                    (if containsNodePosition cache (positionHash cache (position rootGame))
                     then nodePosition cache (positionHash cache (position rootGame))
                     else newNodePosition cache (positionHash cache (position rootGame)))
                    n (position rootGame)])"
  proof
    assume a: "m_root t = None \<and> (asserts \<longrightarrow> used cache = 0) \<and> newNode cache = Some n"
    then have "\<not> (asserts \<and> used cache \<noteq> 0)" by simp
    with a show "embodiedRoot asserts cache rootGame (t, calls) =
          Inr (Some n, t\<lparr>m_root := Some n\<rparr>,
               calls @ [NewNode]
               @ (if containsNodePosition cache (positionHash cache (position rootGame)) then []
                  else [NewNodePosition (positionHash cache (position rootGame))])
               @ [NodeInitialize n None rootGame,
                  SetPosition n
                    (if containsNodePosition cache (positionHash cache (position rootGame))
                     then nodePosition cache (positionHash cache (position rootGame))
                     else newNodePosition cache (positionHash cache (position rootGame))),
                  PositionInitialize
                    (if containsNodePosition cache (positionHash cache (position rootGame))
                     then nodePosition cache (positionHash cache (position rootGame))
                     else newNodePosition cache (positionHash cache (position rootGame)))
                    n (position rootGame)])"
      by (intro embodiedRoot_fresh) simp_all
  qed
  show "\<forall>res t' calls'.
        embodiedRoot asserts cache rootGame (t, calls) = Inr (res, t', calls') \<longrightarrow>
          res \<noteq> None \<and> m_root t' = res"
    by (intro allI impI) (rule embodiedRoot_not_null)
qed

theorem embodiedRoot_returns_root_witness:
  "m_root (Tree_new True\<lparr>m_root := Some 9\<rparr>) = Some 9
   \<and> m_root (Tree_new True) = None \<and> used exCache = 0 \<and> newNode exCache = Some 0
   \<and> embodiedRoot True exCache \<lparr>position = 7\<rparr> (Tree_new True\<lparr>m_root := Some 9\<rparr>, []) =
       Inr (Some 9, Tree_new True\<lparr>m_root := Some 9\<rparr>, [])
   \<and> embodiedRoot True exCache \<lparr>position = 7\<rparr> (Tree_new True, []) =
       Inr (Some 0, Tree_new True\<lparr>m_root := Some 0\<rparr>,
            [NewNode, NodeInitialize 0 None \<lparr>position = 7\<rparr>, SetPosition 0 3,
             PositionInitialize 3 0 7])
   \<and> embodiedRoot True exCache \<lparr>position = 8\<rparr> (Tree_new True, []) =
       Inr (Some 0, Tree_new True\<lparr>m_root := Some 0\<rparr>,
            [NewNode, NewNodePosition 8, NodeInitialize 0 None \<lparr>position = 8\<rparr>, SetPosition 0 4,
             PositionInitialize 4 0 8])"
proof -
  have t: "m_root (Tree_new True) = None"
    by (simp add: Tree_new_def)
  have c: "used exCache = 0" "newNode exCache = Some 0"
    "positionHash exCache 7 = 7" "positionHash exCache 8 = 8"
    "containsNodePosition exCache 7" "\<not> containsNodePosition exCache 8"
    "nodePosition exCache 7 = 3" "newNodePosition exCache 8 = 4"
    by (simp_all add: exCache_def)
  have a: "embodiedRoot True exCache \<lparr>position = 7\<rparr> (Tree_new True\<lparr>m_root := Some 9\<rparr>, []) =
       Inr (Some 9, Tree_new True\<lparr>m_root := Some 9\<rparr>, [])"
    using embodiedRoot_returns_root
         [of "Tree_new True\<lparr>m_root := Some 9\<rparr>" 9 True exCache "\<lparr>position = 7\<rparr>" "[]" 0,
          THEN conjunct1]
    by simp
  have b: "embodiedRoot True exCache \<lparr>position = 7\<rparr> (Tree_new True, []) =
       Inr (Some 0, Tree_new True\<lparr>m_root := Some 0\<rparr>,
            [NewNode, NodeInitialize 0 None \<lparr>position = 7\<rparr>, SetPosition 0 3,
             PositionInitialize 3 0 7])"
    using embodiedRoot_returns_root
         [of "Tree_new True" 9 True exCache "\<lparr>position = 7\<rparr>" "[]" 0,
          THEN conjunct2, THEN conjunct1]
    by (simp add: t c)
  have d: "embodiedRoot True exCache \<lparr>position = 8\<rparr> (Tree_new True, []) =
       Inr (Some 0, Tree_new True\<lparr>m_root := Some 0\<rparr>,
            [NewNode, NewNodePosition 8, NodeInitialize 0 None \<lparr>position = 8\<rparr>, SetPosition 0 4,
             PositionInitialize 4 0 8])"
    using embodiedRoot_returns_root
         [of "Tree_new True" 9 True exCache "\<lparr>position = 8\<rparr>" "[]" 0,
          THEN conjunct2, THEN conjunct1]
    by (simp add: t c)
  from a b d t c(1,2) show ?thesis by simp
qed

end
